theory Spec2Isabelle
  imports Complex_Main
begin

section \<open>Errors, masked values and slices\<close>

text \<open>
  The exceptions that the modelled code raises.  \<open>ConstructionError\<close> is the
  data-consistency error of a compressed array whose auxiliary arrays do not fit
  its declared shape.
\<close>

datatype error = ValueError | IndexError | TypeError | NameError | ConstructionError

text \<open>
  An array element is \<open>Some v\<close>, or \<open>None\<close> for the masked constant
  (\<open>cfdm_masked\<close>).  Arrays are stored flattened in row-major order, next to
  their shape.  Python's \<open>slice(start, stop, step)\<close> keeps its three optional
  fields.
\<close>

datatype slice = Slice "int option" "int option" "int option"

definition slice2 :: "nat \<Rightarrow> nat \<Rightarrow> slice" where
  "slice2 a b = Slice (Some (int a)) (Some (int b)) None"

definition slice_None :: slice where
  "slice_None = Slice None None None"

text \<open>\<open>slice.indices(n)\<close> of Python: the start, stop and step that the slice
  denotes on a sequence of length \<open>n\<close>.\<close>

definition slice_indices :: "slice \<Rightarrow> nat \<Rightarrow> error + (int \<times> int \<times> int)" where
  "slice_indices s n =
     (case s of Slice start stop step \<Rightarrow>
        (let st = (case step of None \<Rightarrow> 1 | Some k \<Rightarrow> k) in
         if st = 0 then Inl ValueError
         else
           (let len = int n;
                lower = (if st < 0 then - 1 else 0);
                upper = (if st < 0 then len - 1 else len);
                a = (case start of
                       None \<Rightarrow> (if st < 0 then upper else lower)
                     | Some v \<Rightarrow> (if v < 0 then max (v + len) lower else min v upper));
                b = (case stop of
                       None \<Rightarrow> (if st < 0 then lower else upper)
                     | Some v \<Rightarrow> (if v < 0 then max (v + len) lower else min v upper))
            in Inr (a, b, st))))"

text \<open>\<open>range(a, b, st)\<close> for a step that is not zero.\<close>

definition py_range :: "int \<Rightarrow> int \<Rightarrow> int \<Rightarrow> int list" where
  "py_range a b st =
     (if 0 < st then map (\<lambda>k. a + int k * st) [0..<nat ((b - a + st - 1) div st)]
      else map (\<lambda>k. a + int k * st) [0..<nat ((a - b - st - 1) div (- st))])"

text \<open>The positions that a slice selects on an axis of length \<open>n\<close>.\<close>

definition slice_positions :: "slice \<Rightarrow> nat \<Rightarrow> error + nat list" where
  "slice_positions s n =
     (case slice_indices s n of
        Inl e \<Rightarrow> Inl e
      | Inr (a, b, st) \<Rightarrow> Inr (map nat (py_range a b st)))"

text \<open>Reading \<open>xs[s]\<close> for a one-dimensional array.\<close>

definition get_slice :: "slice \<Rightarrow> 'a list \<Rightarrow> error + 'a list" where
  "get_slice s xs =
     (case slice_positions s (length xs) of
        Inl e \<Rightarrow> Inl e
      | Inr ps \<Rightarrow> Inr (map (\<lambda>p. xs ! p) ps))"

text \<open>
  The assignment \<open>xs[start:stop] = vs\<close> on a one-dimensional numpy array with
  non-negative bounds: the bounds are clipped to the array, the values have the
  length of the window or are a single value that is repeated, and any other
  length is numpy's broadcasting error.
\<close>

definition set_slice :: "nat \<Rightarrow> nat \<Rightarrow> 'a list \<Rightarrow> 'a list \<Rightarrow> error + 'a list" where
  "set_slice start stop vs xs =
     (let n = length xs; lo = min start n; hi = max lo (min stop n) in
      if length vs = hi - lo then Inr (take lo xs @ vs @ drop hi xs)
      else if length vs = 1 then Inr (take lo xs @ replicate (hi - lo) (hd vs) @ drop hi xs)
      else Inl ValueError)"

text \<open>\<open>itertools.product(*xss)\<close>: the rightmost sequence varies fastest.\<close>

fun itertools_product :: "'a list list \<Rightarrow> 'a list list" where
  "itertools_product [] = [[]]"
| "itertools_product (xs # xss) =
     concat (map (\<lambda>x. map (\<lambda>t. x # t) (itertools_product xss)) xs)"

text \<open>\<open>np.cumsum\<close> and \<open>np.unique\<close> on one-dimensional arrays of
  non-negative integers, and \<open>np.where(index == i)[0]\<close>.\<close>

fun cumsum_from :: "nat \<Rightarrow> nat list \<Rightarrow> nat list" where
  "cumsum_from acc [] = []"
| "cumsum_from acc (x # xs) = (acc + x) # cumsum_from (acc + x) xs"

definition cumsum :: "nat list \<Rightarrow> nat list" where
  "cumsum xs = cumsum_from 0 xs"

definition unique :: "nat list \<Rightarrow> nat list" where
  "unique xs = sort (remdups xs)"

definition where_eq :: "nat list \<Rightarrow> nat \<Rightarrow> nat list" where
  "where_eq index i = filter (\<lambda>j. index ! j = i) [0..<length index]"

text \<open>Reading \<open>xs[j]\<close> of a Python list at a non-negative position.\<close>

definition getitem_list :: "'a list \<Rightarrow> nat \<Rightarrow> error + 'a" where
  "getitem_list xs j = (if j < length xs then Inr (xs ! j) else Inl IndexError)"

text \<open>A list of results that may fail, evaluated from left to right: the first
  error is raised.  Reading \<open>xs[js]\<close> for a list of positions reads each
  of them.\<close>

fun sequence :: "(error + 'a) list \<Rightarrow> error + 'a list" where
  "sequence [] = Inr []"
| "sequence (r # rs) =
     (case r of
        Inl e \<Rightarrow> Inl e
      | Inr x \<Rightarrow> (case sequence rs of Inl e \<Rightarrow> Inl e | Inr xs \<Rightarrow> Inr (x # xs)))"

definition getitems :: "'a list \<Rightarrow> nat list \<Rightarrow> error + 'a list" where
  "getitems xs js = sequence (map (getitem_list xs) js)"

section \<open>Subarray descriptors of an indexed contiguous ragged array\<close>

text \<open>
  \<open>RaggedIndexedContiguousArray.subarrays\<close>.  The constructor fixes
  \<open>compressed_dimensions = {0: (0, 1, 2)}\<close>, so \<open>d1 = 0\<close>, \<open>u_dim1 = 0\<close> and
  \<open>u_dim2 = 1\<close>.  The inner loop appends one slice for each profile location
  \<open>j\<close> to \<open>ind\<close>; reading \<open>count_partial_sums\<close> beyond its end is Python's
  \<open>IndexError\<close>.
\<close>

fun profile_slices :: "nat list \<Rightarrow> nat list \<Rightarrow> slice list \<Rightarrow> error + slice list" where
  "profile_slices count_partial_sums [] ind = Inr ind"
| "profile_slices count_partial_sums (j # js) ind =
     (case (if j = 0 then Inr 0 else getitem_list count_partial_sums (j - 1)) of
        Inl e \<Rightarrow> Inl e
      | Inr start \<Rightarrow>
          (case getitem_list count_partial_sums j of
             Inl e \<Rightarrow> Inl e
           | Inr stop \<Rightarrow> profile_slices count_partial_sums js (ind @ [slice2 start stop])))"

text \<open>The loop over the features \<open>i\<close> in \<open>unique\<close>.  A tuple multiplied by a
  negative number is empty, which is what the subtraction on \<open>nat\<close> gives.\<close>

fun feature_loop ::
  "nat \<Rightarrow> nat list \<Rightarrow> nat list \<Rightarrow> nat list \<Rightarrow> slice list \<Rightarrow> error + slice list" where
  "feature_loop max_n_profiles index count_partial_sums [] ind = Inr ind"
| "feature_loop max_n_profiles index count_partial_sums (i # us) ind =
     (let profile_locations = where_eq index i in
      case profile_slices count_partial_sums profile_locations ind of
        Inl e \<Rightarrow> Inl e
      | Inr ind' \<Rightarrow>
          feature_loop max_n_profiles index count_partial_sums us
            (ind' @ replicate (max_n_profiles - length profile_locations) (slice2 0 0)))"

definition c_ind :: "nat \<Rightarrow> nat list \<Rightarrow> nat list \<Rightarrow> error + slice list" where
  "c_ind max_n_profiles counts index =
     feature_loop max_n_profiles index (cumsum counts) (unique index) []"

type_synonym descriptors =
  "slice list list \<times> nat list list \<times> slice list list \<times> nat list list"

definition subarrays :: "nat list \<Rightarrow> nat \<Rightarrow> nat list \<Rightarrow> nat list \<Rightarrow> error + descriptors" where
  "subarrays uncompressed_shape source_ndim counts index =
     (let ndim = length uncompressed_shape in
      if ndim < 2 then Inl IndexError
      else
        (let n_features = uncompressed_shape ! 0;
             max_n_profiles = uncompressed_shape ! 1;
             u_indices = (replicate ndim [slice_None])
               [0 := map (\<lambda>i. slice2 i (i + 1)) [0..<n_features],
                1 := map (\<lambda>j. slice2 j (j + 1)) [0..<max_n_profiles]];
             locations = (replicate ndim [0])
               [0 := [0..<n_features], 1 := [0..<max_n_profiles]];
             u_shapes = (map (\<lambda>n. [n]) uncompressed_shape)
               [0 := replicate n_features 1, 1 := replicate max_n_profiles 1];
             c_indices = replicate source_ndim [slice_None]
         in case c_ind max_n_profiles counts index of
              Inl e \<Rightarrow> Inl e
            | Inr ind \<Rightarrow>
                if source_ndim = 0 then Inl IndexError
                else Inr (itertools_product u_indices,
                          itertools_product u_shapes,
                          itertools_product (c_indices[0 := ind]),
                          itertools_product locations)))"

section \<open>Compressed arrays and their decoding\<close>

text \<open>
  The array that a \<open>Data\<close> object wraps: an uncompressed array with its shape,
  or one of the ragged arrays with the compressed data, the declared
  uncompressed shape and the count and index variables.
\<close>

datatype 'a array =
    NumpyArray "nat list" "'a option list"
  | RaggedContiguousArray "'a option list" "nat list" "nat list"
  | RaggedIndexedArray "'a option list" "nat list" "nat list"
  | RaggedIndexedContiguousArray "'a option list" "nat list" "nat list" "nat list"

fun shape :: "'a array \<Rightarrow> nat list" where
  "shape (NumpyArray sh cells) = sh"
| "shape (RaggedContiguousArray cdata sh counts) = sh"
| "shape (RaggedIndexedArray cdata sh index) = sh"
| "shape (RaggedIndexedContiguousArray cdata sh counts index) = sh"

fun get_compression_type :: "'a array \<Rightarrow> string" where
  "get_compression_type (NumpyArray sh cells) = []"
| "get_compression_type (RaggedContiguousArray cdata sh counts) = ''ragged contiguous''"
| "get_compression_type (RaggedIndexedArray cdata sh index) = ''ragged indexed''"
| "get_compression_type (RaggedIndexedContiguousArray cdata sh counts index) =
     ''ragged indexed contiguous''"

definition pad_row :: "nat \<Rightarrow> 'a option list \<Rightarrow> 'a option list" where
  "pad_row m xs = take m xs @ replicate (m - length xs) None"

text \<open>
  Modelled from the spec: the decoder of \<open>RaggedContiguousArray\<close> is not in the
  sources.  Feature \<open>i\<close> owns the run of the compressed data between the
  cumulative sums of the counts; each run is copied into row \<open>i\<close> of a buffer
  filled with the missing marker.  A count sum that differs from the compressed
  size, more counts than rows and a run longer than a row are
  data-consistency errors.
\<close>

fun contiguous_rows :: "nat \<Rightarrow> nat \<Rightarrow> nat list \<Rightarrow> 'a option list \<Rightarrow> 'a option list list" where
  "contiguous_rows m start [] cdata = []"
| "contiguous_rows m start (n # ns) cdata =
     pad_row m (take n (drop start cdata)) # contiguous_rows m (start + n) ns cdata"

definition uncompress_contiguous ::
  "'a option list \<Rightarrow> nat list \<Rightarrow> nat list \<Rightarrow> error + 'a option list" where
  "uncompress_contiguous cdata sh counts =
     (case sh of
        [n_features, m] \<Rightarrow>
          if sum_list counts \<noteq> length cdata \<or> n_features < length counts
             \<or> list_ex (\<lambda>n. m < n) counts
          then Inl ConstructionError
          else Inr (concat (contiguous_rows m 0 counts cdata)
                    @ replicate ((n_features - length counts) * m) None)
      | _ \<Rightarrow> Inl ConstructionError)"

text \<open>
  Modelled from the spec: the decoder of \<open>RaggedIndexedArray\<close> is not in the
  sources.  Element \<open>j\<close> belongs to feature \<open>index[j]\<close>; the elements of a
  feature fill its row in compressed order and the rest of the row is missing.
\<close>

definition uncompress_indexed ::
  "'a option list \<Rightarrow> nat list \<Rightarrow> nat list \<Rightarrow> error + 'a option list" where
  "uncompress_indexed cdata sh index =
     (case sh of
        [n_features, m] \<Rightarrow>
          if length index \<noteq> length cdata \<or> list_ex (\<lambda>i. n_features \<le> i) index
             \<or> list_ex (\<lambda>i. m < length (where_eq index i)) [0..<n_features]
          then Inl ConstructionError
          else Inr (concat (map (\<lambda>i. pad_row m (map (\<lambda>j. cdata ! j) (where_eq index i)))
                              [0..<n_features]))
      | _ \<Rightarrow> Inl ConstructionError)"

text \<open>
  Modelled from the spec: the decoding loop that consumes the descriptors of
  \<open>subarrays\<close> is not in the sources.  The buffer has the uncompressed shape
  and is filled with the missing marker; for every subarray the decoder copies
  min(source length, destination length) elements of the compressed window to
  the start of the subarray at its location.  With a one-dimensional
  compressed array the uncompressed array has exactly three dimensions.
\<close>

definition ravel :: "nat list \<Rightarrow> nat list \<Rightarrow> nat" where
  "ravel sh location = foldl (\<lambda>acc (n, i). acc * n + i) 0 (zip sh location)"

definition copy_subarray ::
  "nat \<Rightarrow> nat \<Rightarrow> 'a option list \<Rightarrow> 'a option list \<Rightarrow> 'a option list" where
  "copy_subarray offset n source uarray =
     (let k = min (length source) n
      in take offset uarray @ take k source @ drop (offset + k) uarray)"

fun decode_subarrays ::
  "nat list \<Rightarrow> 'a option list
   \<Rightarrow> (slice list \<times> nat list \<times> slice list \<times> nat list) list
   \<Rightarrow> 'a option list \<Rightarrow> error + 'a option list" where
  "decode_subarrays sh cdata [] uarray = Inr uarray"
| "decode_subarrays sh cdata ((u_index, u_shape, c_index, location) # rest) uarray =
     (case c_index of
        [s] \<Rightarrow>
          (case get_slice s cdata of
             Inl e \<Rightarrow> Inl e
           | Inr source \<Rightarrow>
               decode_subarrays sh cdata rest
                 (copy_subarray (ravel sh location) (prod_list u_shape) source uarray))
      | _ \<Rightarrow> Inl ConstructionError)"

definition uncompress_indexed_contiguous ::
  "'a option list \<Rightarrow> nat list \<Rightarrow> nat list \<Rightarrow> nat list \<Rightarrow> error + 'a option list" where
  "uncompress_indexed_contiguous cdata sh counts index =
     (if length sh \<noteq> 3 \<or> sum_list counts \<noteq> length cdata \<or> length index \<noteq> length counts
      then Inl ConstructionError
      else
        (case subarrays sh 1 counts index of
           Inl e \<Rightarrow> Inl e
         | Inr (u_indices, u_shapes, c_indices, locations) \<Rightarrow>
             decode_subarrays sh cdata
               (zip u_indices (zip u_shapes (zip c_indices locations)))
               (replicate (prod_list sh) None)))"

text \<open>The uncompressed contents of an array, flattened in row-major order.\<close>

fun uncompressed :: "'a array \<Rightarrow> error + 'a option list" where
  "uncompressed (NumpyArray sh cells) = Inr cells"
| "uncompressed (RaggedContiguousArray cdata sh counts) = uncompress_contiguous cdata sh counts"
| "uncompressed (RaggedIndexedArray cdata sh index) = uncompress_indexed cdata sh index"
| "uncompressed (RaggedIndexedContiguousArray cdata sh counts index) =
     uncompress_indexed_contiguous cdata sh counts index"

section \<open>Field.compress and Field.uncompress\<close>

text \<open>
  A field construct holds its data and its metadata constructs.  The metadata
  constructs and their container are not part of the sources and stay abstract
  (the type \<open>'c\<close>); the steps of an operation that act on them only are
  parameters of the operation.
\<close>

record ('a, 'c) field =
  data :: "'a array option"
  constructs :: 'c

text \<open>
  Modelled from the spec: the decorator \<open>_inplace_enabled\<close> is not in the sources.
  An operation works on \<open>f\<close>, which is the field itself when \<open>inplace\<close> is true
  and a copy otherwise, and returns \<open>f\<close>, or \<open>None\<close> if it was in place.  The
  result of an operation is paired with the state of the field it was called
  on: \<open>returned\<close> for a normal return, \<open>raised\<close> for an exception.
\<close>

definition returned ::
  "bool \<Rightarrow> ('a, 'c) field \<Rightarrow> ('a, 'c) field
   \<Rightarrow> (error + ('a, 'c) field option) \<times> ('a, 'c) field" where
  "returned inplace self f = (Inr (if inplace then None else Some f), if inplace then f else self)"

definition raised ::
  "bool \<Rightarrow> ('a, 'c) field \<Rightarrow> error \<Rightarrow> ('a, 'c) field
   \<Rightarrow> (error + ('a, 'c) field option) \<times> ('a, 'c) field" where
  "raised inplace self e f = (Inl e, if inplace then f else self)"

text \<open>\<open>get_compression_type().replace(' ', '_')\<close>.\<close>

definition replace_space :: "string \<Rightarrow> string" where
  "replace_space s = map (\<lambda>c. if c = CHR '' '' then CHR ''_'' else c) s"

text \<open>
  Modelled from the spec: \<open>Data.flatten\<close> and the iteration over a \<open>Data\<close>
  object are not in the sources.  The array is flattened over all dimensions
  but the last, and iterating gives its rows.  A scalar cannot be iterated, and
  the elements of a one-dimensional array are scalars that the count loop
  cannot slice; both cases are only reached for a method name that
  \<open>compress\<close> rejects afterwards.
\<close>

definition flatten :: "'a array \<Rightarrow> error + 'a option list list" where
  "flatten d =
     (case uncompressed d of
        Inl e \<Rightarrow> Inl e
      | Inr cells \<Rightarrow>
          (let sh = shape d in
           if length sh = 0 then Inl TypeError
           else if length sh = 1 then (if cells = [] then Inr [] else Inl IndexError)
           else
             (let m = last sh; n = prod_list (butlast sh)
              in Inr (map (\<lambda>i. take m (drop (i * m) cells)) [0..<n]))))"

text \<open>
  The count of a row: the loop over the reversed row decrements \<open>last\<close> until
  it meets an element that is not masked.
\<close>

fun trailing_scan :: "'a option list \<Rightarrow> nat \<Rightarrow> nat" where
  "trailing_scan [] last_n = last_n"
| "trailing_scan (i # rest) last_n =
     (case i of Some v \<Rightarrow> last_n | None \<Rightarrow> trailing_scan rest (last_n - 1))"

definition row_count :: "'a option list \<Rightarrow> nat" where
  "row_count d = trailing_scan (rev d) (length d)"

definition dsg_count :: "'a option list list \<Rightarrow> nat list" where
  "dsg_count flattened_data = map row_count flattened_data"

text \<open>
  The values that the type \<open>'a option\<close> does not show.  An element of a numpy
  masked array keeps a value under its mask: \<open>under_mask h i j\<close> is the value
  under the mask at column \<open>j\<close> of row \<open>i\<close> of the flattened data.  An array
  from \<open>data.empty\<close> has no mask and holds whatever its memory holds:
  \<open>uninitialised h p\<close> is the value at its position \<open>p\<close>.
\<close>

record 'a hidden =
  under_mask :: "nat \<Rightarrow> nat \<Rightarrow> 'a"
  uninitialised :: "nat \<Rightarrow> 'a"

text \<open>
  \<open>Data.empty\<close> and \<open>Data.__setitem__\<close> are not in the sources.  The compressed
  array that \<open>_empty_compressed_data\<close> creates has no mask, and the assignment
  \<open>compressed_field_data[start:end] = d[:last]\<close> is numpy's assignment into an
  array without a mask: it stores the value of every assigned element, and
  for a masked element that is the value under the mask.
\<close>

definition unmasked :: "(nat \<Rightarrow> 'a) \<Rightarrow> 'a option list \<Rightarrow> 'a option list" where
  "unmasked um xs =
     map (\<lambda>(j, x). case x of None \<Rightarrow> Some (um j) | Some v \<Rightarrow> Some v) (zip [0..<length xs] xs)"

text \<open>The loop over \<open>zip(count, flattened_data)\<close> that fills the compressed
  array; \<open>i\<close> is the number of the row, and rows with a count of zero are
  skipped.\<close>

fun dsg_populate ::
  "(nat \<Rightarrow> nat \<Rightarrow> 'a) \<Rightarrow> nat \<Rightarrow> nat \<Rightarrow> nat list \<Rightarrow> 'a option list list \<Rightarrow> 'a option list
   \<Rightarrow> error + 'a option list" where
  "dsg_populate um i start (last_n # cs) (d # ds) cdata =
     (if last_n = 0 then dsg_populate um (i + 1) start cs ds cdata
      else (case set_slice start (start + last_n) (unmasked (um i) (take last_n d)) cdata of
              Inl e \<Rightarrow> Inl e
            | Inr cdata' \<Rightarrow> dsg_populate um (i + 1) (start + last_n) cs ds cdata'))"
| "dsg_populate um i start cs ds cdata = Inr cdata"

text \<open>
  The block of DSG compression: the rows, their counts, the size \<open>N\<close> of the
  compressed array and the compressed array.
\<close>

definition dsg_compression ::
  "'a hidden \<Rightarrow> 'a array
   \<Rightarrow> error + ('a option list list \<times> nat list \<times> nat \<times> 'a option list)" where
  "dsg_compression h d =
     (case flatten d of
        Inl e \<Rightarrow> Inl e
      | Inr flattened_data \<Rightarrow>
          (let counts = dsg_count flattened_data; N = sum_list counts in
           case dsg_populate (under_mask h) 0 0 counts flattened_data
                  (map (\<lambda>p. Some (uninitialised h p)) [0..<N]) of
             Inl e \<Rightarrow> Inl e
           | Inr compressed_field_data \<Rightarrow> Inr (flattened_data, counts, N, compressed_field_data)))"

text \<open>The data of the count variable: \<open>[n for n in count if n]\<close>.\<close>

definition count_variable_data :: "nat list \<Rightarrow> nat list" where
  "count_variable_data counts = filter (\<lambda>n. n \<noteq> 0) counts"

text \<open>The index variable of the indexed representation: row \<open>i\<close> writes its
  number into the window of its elements.  The index array from
  \<open>Data.empty\<close> is not initialised either; all of it is written.\<close>

fun indexed_index ::
  "nat \<Rightarrow> nat \<Rightarrow> nat list \<Rightarrow> 'b list \<Rightarrow> nat list \<Rightarrow> error + nat list" where
  "indexed_index i start (last_n # cs) (d # ds) index_data =
     (if last_n = 0 then indexed_index (i + 1) start cs ds index_data
      else (case set_slice start (start + last_n) [i] index_data of
              Inl e \<Rightarrow> Inl e
            | Inr index_data' \<Rightarrow> indexed_index (i + 1) (start + last_n) cs ds index_data'))"
| "indexed_index i start cs ds index_data = Inr index_data"

text \<open>The index of the indexed contiguous representation: feature \<open>i\<close> is
  repeated once for each of its profiles that has a positive count.\<close>

definition indexed_contiguous_index :: "nat \<Rightarrow> nat \<Rightarrow> nat list \<Rightarrow> nat list" where
  "indexed_contiguous_index shape0 shape1 counts =
     concat (map (\<lambda>i. replicate
                        (length (filter (\<lambda>n. 0 < n) (take shape1 (drop (shape1 * i) counts)))) i)
                 [0..<shape0])"

text \<open>
  \<open>Field.compress\<close>.  The parameter \<open>tc\<close> is the effect on the metadata
  constructs of \<open>f.transpose(range(ndim), constructs=True, inplace=True)\<close>,
  which leaves the data in its order; \<open>cm method count N full\<close> is the nested
  function \<open>_compress_metadata\<close>, called for the constructs that span all data
  axes (\<open>full\<close>) or all but the last, and gives the new constructs and the
  exception it raised, if any; \<open>h\<close> gives the values that the arrays hold
  out of sight.  The dispatch on the method is written once:
  for \<open>'gathered'\<close> the DSG block is skipped and the last but one branch of the
  source raises.
\<close>

definition compress ::
  "('c \<Rightarrow> 'c) \<Rightarrow> (string \<Rightarrow> nat list \<Rightarrow> nat \<Rightarrow> bool \<Rightarrow> 'c \<Rightarrow> 'c \<times> error option)
   \<Rightarrow> 'a hidden \<Rightarrow> ('a, 'c) field \<Rightarrow> string \<Rightarrow> bool
   \<Rightarrow> (error + ('a, 'c) field option) \<times> ('a, 'c) field" where
  "compress tc cm h self method inplace =
     (let f = self in
      case data f of
        None \<Rightarrow> returned inplace self f
      | Some d \<Rightarrow>
          (let current_compression_type = replace_space (get_compression_type d);
               ndim = length (shape d)
           in
           if current_compression_type \<noteq> [] \<and> current_compression_type = ''ragged_'' @ method
           then returned inplace self f
           else if method = ''contiguous'' \<and> ndim \<noteq> 2 then raised inplace self ValueError f
           else if method = ''indexed'' \<and> ndim \<noteq> 2 then raised inplace self ValueError f
           else if method = ''indexed_contiguous'' \<and> ndim \<noteq> 3
           then raised inplace self ValueError f
           else
             (let f = f\<lparr>constructs := tc (constructs f)\<rparr> in
              if method = ''gathered'' then raised inplace self ValueError f
              else
                (case dsg_compression h d of
                   Inl e \<Rightarrow> raised inplace self e f
                 | Inr (flattened_data, counts, N, compressed_field_data) \<Rightarrow>
                     if method = ''contiguous'' then
                       (let count_variable = count_variable_data counts;
                            x = RaggedContiguousArray compressed_field_data (shape d) count_variable
                        in case cm method counts N True (constructs f) of
                             (c, Some e) \<Rightarrow> raised inplace self e (f\<lparr>constructs := c\<rparr>)
                           | (c, None) \<Rightarrow>
                               returned inplace self (f\<lparr>data := Some x, constructs := c\<rparr>))
                     else if method = ''indexed'' then
                       (case indexed_index 0 0 counts flattened_data (replicate N 0) of
                          Inl e \<Rightarrow> raised inplace self e f
                        | Inr index_variable \<Rightarrow>
                            (let x = RaggedIndexedArray compressed_field_data (shape d) index_variable
                             in case cm method counts N True (constructs f) of
                                  (c, Some e) \<Rightarrow> raised inplace self e (f\<lparr>constructs := c\<rparr>)
                                | (c, None) \<Rightarrow>
                                    returned inplace self (f\<lparr>data := Some x, constructs := c\<rparr>)))
                     else if method = ''indexed_contiguous'' then
                       (let index = indexed_contiguous_index (shape d ! 0) (shape d ! 1) counts;
                            count_variable = count_variable_data counts;
                            x = RaggedIndexedContiguousArray compressed_field_data (shape d)
                                  count_variable index
                        in case cm method counts N True (constructs f) of
                             (c, Some e) \<Rightarrow> raised inplace self e (f\<lparr>constructs := c\<rparr>)
                           | (c, None) \<Rightarrow>
                               (case cm method counts (length index) False c of
                                  (c', Some e) \<Rightarrow> raised inplace self e (f\<lparr>constructs := c'\<rparr>)
                                | (c', None) \<Rightarrow>
                                    returned inplace self (f\<lparr>data := Some x, constructs := c'\<rparr>)))
                     else raised inplace self ValueError f))))"

text \<open>
  \<open>Field.uncompress\<close>.  Modelled from the spec: the \<open>uncompress\<close> method of the
  data is not in the sources; it replaces a compressed array by its decoded
  contents.  The parameter \<open>uc\<close> uncompresses the metadata constructs.
\<close>

definition uncompress ::
  "('c \<Rightarrow> 'c) \<Rightarrow> ('a, 'c) field \<Rightarrow> bool
   \<Rightarrow> (error + ('a, 'c) field option) \<times> ('a, 'c) field" where
  "uncompress uc self inplace =
     (let f = self in
      case data f of
        None \<Rightarrow> returned inplace self (f\<lparr>constructs := uc (constructs f)\<rparr>)
      | Some d \<Rightarrow>
          (case uncompressed d of
             Inl e \<Rightarrow> raised inplace self e f
           | Inr cells \<Rightarrow>
               returned inplace self
                 (f\<lparr>data := Some (NumpyArray (shape d) cells),
                    constructs := uc (constructs f)\<rparr>)))"

section \<open>Decoding a linear subsampled array\<close>

text \<open>
  \<open>SampledLinearArray.__getitem__\<close> for a one-dimensional array.  The methods
  \<open>_first_or_last_index\<close>, \<open>interpolation_subareas\<close> and \<open>get_subspace\<close> are
  not in the sources: the first is the parameter \<open>first_or_last_index\<close>, which
  gives \<open>None\<close> where the method raises \<open>IndexError\<close>, and the subareas are
  given as a list.  A subarea has the positions of its two tie points (the
  loop takes the first with \<open>[:1]\<close> and the second with \<open>[1:]\<close>), the window
  of the uncompressed array, its size and the flag \<open>new_area\<close>.

  In the body of the loop, \<open>ua\<close> is bound to a tuple by a trailing comma, and
  the call of \<open>_linear_interpolation\<close> passes \<open>subarea_size[d]\<close>.  No name
  \<open>d\<close> is bound in the method or in the module (the dimension is \<open>d0\<close>), so
  evaluating the arguments of the call raises \<open>NameError\<close>: the body reaches
  neither the call nor the assignment to \<open>uarray\<close>.
\<close>

record subarea =
  sa_tp_indices :: "nat list"
  sa_u_indices :: slice
  sa_subarea_size :: nat
  sa_new_area :: bool

definition interpolate_subarea ::
  "real list \<Rightarrow> subarea \<Rightarrow> real option list \<Rightarrow> error + real option list" where
  "interpolate_subarea tie_points sa uarray =
     (let tp_index0 = take 1 (sa_tp_indices sa);
          tp_index1 = drop 1 (sa_tp_indices sa)
      in case getitems tie_points tp_index0 of
           Inl e \<Rightarrow> Inl e
         | Inr a \<Rightarrow>
             (case getitems tie_points tp_index1 of
                Inl e \<Rightarrow> Inl e
              | Inr ub \<Rightarrow> (let ua = [a] in Inl NameError)))"

fun interpolate_subareas ::
  "real list \<Rightarrow> subarea list \<Rightarrow> real option list \<Rightarrow> error + real option list" where
  "interpolate_subareas tie_points [] uarray = Inr uarray"
| "interpolate_subareas tie_points (sa # rest) uarray =
     (case interpolate_subarea tie_points sa uarray of
        Inl e \<Rightarrow> Inl e
      | Inr uarray' \<Rightarrow> interpolate_subareas tie_points rest uarray')"

definition SampledLinearArray_getitem ::
  "('ix \<Rightarrow> real option list option) \<Rightarrow> (real option list \<Rightarrow> 'ix \<Rightarrow> real option list)
   \<Rightarrow> real list \<Rightarrow> nat list \<Rightarrow> subarea list \<Rightarrow> 'ix \<Rightarrow> error + real option list" where
  "SampledLinearArray_getitem first_or_last_index get_subspace tie_points sh subareas indices =
     (case first_or_last_index indices of
        Some r \<Rightarrow> Inr r
      | None \<Rightarrow>
          (case interpolate_subareas tie_points subareas (replicate (prod_list sh) None) of
             Inl e \<Rightarrow> Inl e
           | Inr uarray \<Rightarrow> Inr (get_subspace uarray indices)))"

section \<open>Quadratic geographic interpolation\<close>

text \<open>
  The vector formulas of \<open>QuadraticGeographicInterpolation\<close> on three-dimensional
  cartesian vectors, with real numbers for floating-point numbers.  \<open>_fplus\<close>
  adds any number of vectors to the first one; an optional parameter is
  \<open>None\<close> when it is absent.
\<close>

type_synonym vec = "real \<times> real \<times> real"

definition fdot :: "vec \<Rightarrow> vec \<Rightarrow> real" where
  "fdot va vb =
     (case va of (ax, ay, az) \<Rightarrow> case vb of (bx, by, bz) \<Rightarrow> ax * bx + ay * by + az * bz)"

definition fcross :: "vec \<Rightarrow> vec \<Rightarrow> vec" where
  "fcross va vb =
     (case va of (ax, ay, az) \<Rightarrow> case vb of (bx, by, bz) \<Rightarrow>
        (ay * bz - az * by, az * bx - ax * bz, ax * by - ay * bx))"

definition fminus :: "vec \<Rightarrow> vec \<Rightarrow> vec" where
  "fminus va vb =
     (case va of (ax, ay, az) \<Rightarrow> case vb of (bx, by, bz) \<Rightarrow> (ax - bx, ay - by, az - bz))"

definition fmultiply :: "real \<Rightarrow> vec \<Rightarrow> vec" where
  "fmultiply r v = (case v of (a, b, c) \<Rightarrow> (a * r, b * r, c * r))"

definition fplus :: "vec \<Rightarrow> vec list \<Rightarrow> vec" where
  "fplus v vs =
     foldl (\<lambda>s a. case s of (sx, sy, sz) \<Rightarrow> case a of (ax, ay, az) \<Rightarrow> (sx + ax, sy + ay, sz + az))
           v vs"

definition fsqrt :: "real \<Rightarrow> real" where
  "fsqrt t = t powr (1 / 2)"

definition fcea2cv :: "vec \<Rightarrow> vec \<Rightarrow> real option \<Rightarrow> real option \<Rightarrow> vec" where
  "fcea2cv va vb ce ca =
     (let vr = fmultiply (1 / 2) (fplus va [vb]);
          rsqr = fdot vr vr;
          k = 1;
          k = (case ce of None \<Rightarrow> k | Some c \<Rightarrow> k - c * c);
          k = (case ca of None \<Rightarrow> k | Some c \<Rightarrow> k - c * c);
          cr = fsqrt k - fsqrt rsqr;
          cv = fmultiply cr vr;
          cv = (case ce of None \<Rightarrow> cv | Some c \<Rightarrow> fplus cv [fmultiply c (fminus va vb)]);
          cv = (case ca of None \<Rightarrow> cv | Some c \<Rightarrow> fplus cv [fmultiply c (fcross va vb)])
      in cv)"

section \<open>Field.__getitem__\<close>

text \<open>
  An index of one axis: an integer, a slice, a list of integers, or
  \<open>Ellipsis\<close>.
\<close>

datatype index = IntIx int | SliceIx slice | ListIx "int list" | Ellipsis

text \<open>
  Modelled from the spec: \<open>Data._parse_indices\<close> and \<open>Data.__getitem__\<close> are not
  in the sources.  An index expression gives one index for each axis
  (\<open>expand_indices\<close>): an \<open>Ellipsis\<close> stands for the axes that are not named,
  and missing axes take all their elements.  An integer \<open>i\<close> selects element
  \<open>i\<close> (from the end if negative) as the slice from \<open>i\<close> to \<open>i + 1\<close>; lists
  apply to their axes independently; an index out of range and an expression
  with too many indices are an \<open>IndexError\<close>.
\<close>

definition parse_index :: "index \<Rightarrow> nat \<Rightarrow> error + index" where
  "parse_index ix n =
     (case ix of
        IntIx i \<Rightarrow>
          (let j = (if i < 0 then i + int n else i) in
           if 0 \<le> j \<and> j < int n then Inr (SliceIx (Slice (Some j) (Some (j + 1)) (Some 1)))
           else Inl IndexError)
      | SliceIx s \<Rightarrow> (case slice_indices s n of Inl e \<Rightarrow> Inl e | Inr r \<Rightarrow> Inr (SliceIx s))
      | ListIx js \<Rightarrow>
          (let ks = map (\<lambda>i. if i < 0 then i + int n else i) js in
           if list_all (\<lambda>j. 0 \<le> j \<and> j < int n) ks then Inr (ListIx ks) else Inl IndexError)
      | Ellipsis \<Rightarrow> Inl IndexError)"

definition expand_indices :: "nat list \<Rightarrow> index list \<Rightarrow> error + index list" where
  "expand_indices sh indices =
     (let ndim = length sh;
          n_ellipsis = length (filter (\<lambda>i. i = Ellipsis) indices);
          given = length indices - n_ellipsis
      in
      if 1 < n_ellipsis \<or> ndim < given then Inl IndexError
      else
        (let expanded = concat (map (\<lambda>i. if i = Ellipsis
                                         then replicate (ndim - given) (SliceIx slice_None)
                                         else [i]) indices)
         in Inr (expanded @ replicate (ndim - length expanded) (SliceIx slice_None))))"

definition parse_indices :: "nat list \<Rightarrow> index list \<Rightarrow> error + index list" where
  "parse_indices sh indices =
     (case expand_indices sh indices of
        Inl e \<Rightarrow> Inl e
      | Inr full \<Rightarrow> sequence (map (\<lambda>(ix, n). parse_index ix n) (zip full sh)))"

definition axis_positions :: "index \<Rightarrow> nat \<Rightarrow> error + nat list" where
  "axis_positions ix n =
     (case ix of
        SliceIx s \<Rightarrow> slice_positions s n
      | ListIx js \<Rightarrow> Inr (map nat js)
      | _ \<Rightarrow> Inl IndexError)"

definition Data_getitem :: "'a array \<Rightarrow> index list \<Rightarrow> error + 'a array" where
  "Data_getitem d indices =
     (case uncompressed d of
        Inl e \<Rightarrow> Inl e
      | Inr cells \<Rightarrow>
          (case sequence (map (\<lambda>(ix, n). axis_positions ix n) (zip indices (shape d))) of
             Inl e \<Rightarrow> Inl e
           | Inr sel \<Rightarrow>
               Inr (NumpyArray (map length sel)
                      (map (\<lambda>location. cells ! ravel (shape d) location)
                           (itertools_product sel)))))"

text \<open>
  \<open>Field.__getitem__\<close>: the indices are parsed against the shape of the data,
  the data are subspaced, and the new field takes the new data.  The
  parameter \<open>sc\<close> is the effect on the metadata constructs: the sizes of the
  domain axes are set from the shape of the new data and the constructs that
  span a data axis are subspaced with the parsed indices.  \<open>get_data()\<close>
  raises \<open>ValueError\<close> for a field without data.
\<close>

definition Field_getitem ::
  "(nat list \<Rightarrow> index list \<Rightarrow> 'c \<Rightarrow> error + 'c) \<Rightarrow> ('a, 'c) field \<Rightarrow> index list
   \<Rightarrow> error + ('a, 'c) field" where
  "Field_getitem sc self indices =
     (case data self of
        None \<Rightarrow> Inl ValueError
      | Some d \<Rightarrow>
          (case parse_indices (shape d) indices of
             Inl e \<Rightarrow> Inl e
           | Inr indices' \<Rightarrow>
               (case Data_getitem d indices' of
                  Inl e \<Rightarrow> Inl e
                | Inr new_data \<Rightarrow>
                    (case sc (shape new_data) indices' (constructs self) of
                       Inl e \<Rightarrow> Inl e
                     | Inr c \<Rightarrow> Inr \<lparr>data = Some new_data, constructs = c\<rparr>))))"

section \<open>Reference notions of the specification\<close>

text \<open>The number of trailing missing values of a row, in the words of the
  specification; the source computes the count by the loop \<open>trailing_scan\<close>.\<close>

definition trailing_missing :: "'a option list \<Rightarrow> nat" where
  "trailing_missing d = length (takeWhile (\<lambda>x. x = None) (rev d))"


text \<open>
  The compressed slices in the words of the specification: the slice of
  profile \<open>j\<close> lies between the cumulative sums of the counts, and a feature
  has the slices of its profiles followed by a zero-length slice for every
  ghost profile slot.
\<close>

definition profile_slice :: "nat list \<Rightarrow> nat \<Rightarrow> slice" where
  "profile_slice counts j = slice2 (sum_list (take j counts)) (sum_list (take (Suc j) counts))"

definition feature_slices :: "nat \<Rightarrow> nat list \<Rightarrow> nat list \<Rightarrow> nat \<Rightarrow> slice list" where
  "feature_slices max_n_profiles counts index i =
     map (profile_slice counts) (where_eq index i)
     @ replicate (max_n_profiles - length (where_eq index i)) (slice2 0 0)"


text \<open>
  What the compressed array holds for row \<open>i\<close>, in the words of the
  specification and of numpy: the elements of the prefix of the row that is
  kept when the trailing missing values are trimmed, without a mask.
\<close>

definition stored_prefix :: "(nat \<Rightarrow> nat \<Rightarrow> 'a) \<Rightarrow> 'a option list list \<Rightarrow> nat \<Rightarrow> 'a option list" where
  "stored_prefix um rows i =
     unmasked (um i) (take (length (rows ! i) - trailing_missing (rows ! i)) (rows ! i))"

section \<open>Ragged encoding\<close>

lemma trailing_scan_eq:
  "length (takeWhile (\<lambda>x. x = None) xs) \<le> n \<Longrightarrow>
   trailing_scan xs n = n - length (takeWhile (\<lambda>x. x = None) xs)"
  by (induction xs arbitrary: n) (auto split: option.splits)

lemma row_count_eq: "row_count d = length d - trailing_missing d"
proof -
  have "length (takeWhile (\<lambda>x. x = None) (rev d)) \<le> length d"
    by (metis length_rev length_takeWhile_le)
  then show ?thesis
    by (simp add: row_count_def trailing_missing_def trailing_scan_eq)
qed

lemma row_count_le: "row_count d \<le> length d"
  by (simp add: row_count_eq)

lemma set_slice_exact:
  "start + length vs \<le> length xs \<Longrightarrow>
   set_slice start (start + length vs) vs xs
     = Inr (take start xs @ vs @ drop (start + length vs) xs)"
  by (simp add: set_slice_def Let_def min_def max_def)

lemma length_unmasked: "length (unmasked um xs) = length xs"
  by (simp add: unmasked_def)

text \<open>Elements that are not masked are stored as they are.\<close>

lemma unmasked_nth:
  "j < length xs \<Longrightarrow>
   unmasked um xs ! j = (case xs ! j of None \<Rightarrow> Some (um j) | Some v \<Rightarrow> Some v)"
  by (simp add: unmasked_def)

lemma unmasked_id:
  assumes "None \<notin> set xs"
  shows "unmasked um xs = xs"
proof (rule nth_equalityI)
  show "length (unmasked um xs) = length xs" by (rule length_unmasked)
next
  fix j assume "j < length (unmasked um xs)"
  then have j: "j < length xs" by (simp add: length_unmasked)
  then have "xs ! j \<noteq> None" using assms by (metis nth_mem)
  then show "unmasked um xs ! j = xs ! j"
    using j by (auto simp: unmasked_nth split: option.splits)
qed

text \<open>The loop that fills the compressed array writes what it stores for
  every row behind the part that is already filled.\<close>

lemma dsg_populate_concat:
  "length cdata = start + sum_list (map row_count ds) \<Longrightarrow>
   dsg_populate um i start (map row_count ds) ds cdata =
     Inr (take start cdata
          @ concat (map (\<lambda>k. unmasked (um (i + k)) (take (row_count (ds ! k)) (ds ! k)))
                        [0..<length ds]))"
proof (induction ds arbitrary: i start cdata)
  case Nil
  then show ?case by simp
next
  case (Cons d ds)
  let ?f = "\<lambda>k. unmasked (um (i + k)) (take (row_count ((d # ds) ! k)) ((d # ds) ! k))"
  let ?g = "\<lambda>k. unmasked (um (Suc i + k)) (take (row_count (ds ! k)) (ds ! k))"
  have split: "map ?f [0..<length (d # ds)] = ?f 0 # map ?g [0..<length ds]"
    by (simp add: upt_conv_Cons map_Suc_upt [symmetric] del: upt_Suc)
  show ?case
  proof (cases "row_count d = 0")
    case True
    have "dsg_populate um (Suc i) start (map row_count ds) ds cdata
            = Inr (take start cdata @ concat (map ?g [0..<length ds]))"
      using Cons.prems True by (intro Cons.IH) simp
    then show ?thesis
      using True unfolding split by (simp add: unmasked_def)
  next
    case False
    let ?vs = "unmasked (um i) (take (row_count d) d)"
    have lv: "length ?vs = row_count d"
      using row_count_le [of d] by (simp add: length_unmasked)
    have fit: "start + length ?vs \<le> length cdata" using Cons.prems lv by simp
    let ?cdata' = "take start cdata @ ?vs @ drop (start + row_count d) cdata"
    have s: "set_slice start (start + row_count d) ?vs cdata = Inr ?cdata'"
      using set_slice_exact [OF fit] lv by simp
    have len': "length ?cdata' = (start + row_count d) + sum_list (map row_count ds)"
      using Cons.prems lv by simp
    have tk: "take (start + row_count d) ?cdata' = take start cdata @ ?vs"
      using Cons.prems lv by simp
    have "dsg_populate um (Suc i) (start + row_count d) (map row_count ds) ds ?cdata'
            = Inr (take (start + row_count d) ?cdata' @ concat (map ?g [0..<length ds]))"
      using len' by (rule Cons.IH)
    then show ?thesis
      using False s tk unfolding split by simp
  qed
qed

lemma length_stored:
  "length (concat (map (\<lambda>k. unmasked (um (i + k)) (take (row_count (ds ! k)) (ds ! k)))
                       [0..<length ds]))
     = sum_list (map row_count ds)"
proof (induction ds arbitrary: i)
  case Nil
  then show ?case by simp
next
  case (Cons d ds)
  let ?f = "\<lambda>k. unmasked (um (i + k)) (take (row_count ((d # ds) ! k)) ((d # ds) ! k))"
  let ?g = "\<lambda>k. unmasked (um (Suc i + k)) (take (row_count (ds ! k)) (ds ! k))"
  have split: "map ?f [0..<length (d # ds)] = ?f 0 # map ?g [0..<length ds]"
    by (simp add: upt_conv_Cons map_Suc_upt [symmetric] del: upt_Suc)
  show ?case
    unfolding split using Cons [of "Suc i"] row_count_le [of d]
    by (simp add: length_unmasked min_absorb2)
qed

lemma stored_prefix_eq:
  "stored_prefix um rows k = unmasked (um k) (take (row_count (rows ! k)) (rows ! k))"
  by (simp add: stored_prefix_def row_count_eq)

lemma stored_prefix_fun:
  "stored_prefix um rows = (\<lambda>k. unmasked (um k) (take (row_count (rows ! k)) (rows ! k)))"
  by (rule ext) (rule stored_prefix_eq)

text \<open>The block of DSG compression in closed form.\<close>

lemma dsg_compression_rows:
  assumes "flatten d = Inr rows"
  shows "dsg_compression h d =
           Inr (rows, map row_count rows, sum_list (map row_count rows),
                concat (map (stored_prefix (under_mask h) rows) [0..<length rows]))"
proof -
  have "dsg_populate (under_mask h) 0 0 (map row_count rows) rows
          (map (\<lambda>p. Some (uninitialised h p)) [0..<sum_list (map row_count rows)])
        = Inr (concat (map (stored_prefix (under_mask h) rows) [0..<length rows]))"
    using dsg_populate_concat [of "map (\<lambda>p. Some (uninitialised h p))
                                      [0..<sum_list (map row_count rows)]" 0 rows "under_mask h" 0]
    by (simp add: stored_prefix_fun)
  then show ?thesis
    using assms by (simp add: dsg_compression_def dsg_count_def Let_def)
qed

lemma length_stored_prefixes:
  "length (concat (map (stored_prefix um rows) [0..<length rows])) = sum_list (map row_count rows)"
  using length_stored [of um 0 rows] by (simp add: stored_prefix_fun)

text \<open>
  The counts, the compressed array and the count variable in the words of the
  specification: the count of a row is its length minus the number of its
  trailing missing values, the compressed array holds what is stored for the
  rows in row order and has the length of the sum of the counts, and the data
  of the count variable are the counts without the zeros.
\<close>

lemma dsg_compression_closed_form:
  assumes "flatten d = Inr rows"
  shows "dsg_compression h d =
           Inr (rows,
                map (\<lambda>r. length r - trailing_missing r) rows,
                sum_list (map (\<lambda>r. length r - trailing_missing r) rows),
                concat (map (stored_prefix (under_mask h) rows) [0..<length rows]))"
    and "length (concat (map (stored_prefix (under_mask h) rows) [0..<length rows]))
           = sum_list (map (\<lambda>r. length r - trailing_missing r) rows)"
    and "count_variable_data (map (\<lambda>r. length r - trailing_missing r) rows)
           = filter (\<lambda>n. 0 < n) (map (\<lambda>r. length r - trailing_missing r) rows)"
proof -
  have eq: "row_count = (\<lambda>r::'a option list. length r - trailing_missing r)"
    by (rule ext) (rule row_count_eq)
  show "dsg_compression h d =
           Inr (rows,
                map (\<lambda>r. length r - trailing_missing r) rows,
                sum_list (map (\<lambda>r. length r - trailing_missing r) rows),
                concat (map (stored_prefix (under_mask h) rows) [0..<length rows]))"
    using dsg_compression_rows [OF assms, of h] unfolding eq .
  show "length (concat (map (stored_prefix (under_mask h) rows) [0..<length rows]))
           = sum_list (map (\<lambda>r. length r - trailing_missing r) rows)"
    using length_stored_prefixes [of "under_mask h" rows] unfolding eq .
  show "count_variable_data (map (\<lambda>r. length r - trailing_missing r) rows)
           = filter (\<lambda>n. 0 < n) (map (\<lambda>r. length r - trailing_missing r) rows)"
    by (simp add: count_variable_data_def)
qed

text \<open>For data of two dimensions that are not yet compressed in this way,
  \<open>compress('contiguous')\<close> attaches the contiguous ragged array with this
  compressed array, the shape of the data and the counts without the zeros.\<close>

lemma compress_contiguous_result:
  assumes rows: "flatten d = Inr rows"
    and nd: "length (shape d) = 2"
    and ct: "get_compression_type d \<noteq> ''ragged contiguous''"
    and cm: "cm ''contiguous'' (map row_count rows) (sum_list (map row_count rows)) True (tc c)
               = (c', None)"
  shows "compress tc cm h \<lparr>data = Some d, constructs = c\<rparr> ''contiguous'' False
         = (Inr (Some \<lparr>data = Some (RaggedContiguousArray
                                     (concat (map (stored_prefix (under_mask h) rows)
                                                  [0..<length rows]))
                                     (shape d)
                                     (count_variable_data (map row_count rows))),
                       constructs = c'\<rparr>),
            \<lparr>data = Some d, constructs = c\<rparr>)"
proof -
  have nc: "replace_space (get_compression_type d) \<noteq> ''ragged_contiguous''"
    using ct by (cases d) (simp_all add: replace_space_def)
  show ?thesis
    using dsg_compression_rows [OF rows, of h] nd nc cm
    by (simp add: compress_def Let_def returned_def)
qed

text \<open>
  Claim C6.  The claim is that the compressed array is the concatenation of
  the kept row prefixes.  The row \<open>[1, --, 3]\<close> has the count 3 and is its own
  kept prefix; with 99 under the mask, \<open>compress('contiguous')\<close> stores
  \<open>[1, 99, 3]\<close>: the missing value inside the prefix is stored as the value
  under its mask.
\<close>

theorem compress_stores_value_under_mask:
  "compress (\<lambda>c. c) (\<lambda>method counts N full c. (c, None))
     \<lparr>under_mask = \<lambda>i j. 99, uninitialised = \<lambda>p. 0\<rparr>
     \<lparr>data = Some (NumpyArray [1, 3] [Some (1::nat), None, Some 3]), constructs = ()\<rparr>
     ''contiguous'' False
   = (Inr (Some \<lparr>data = Some (RaggedContiguousArray [Some 1, Some 99, Some 3] [1, 3] [3]),
                 constructs = ()\<rparr>),
      \<lparr>data = Some (NumpyArray [1, 3] [Some 1, None, Some 3]), constructs = ()\<rparr>)
   \<and> concat (map (\<lambda>r. take (length r - trailing_missing r) r) [[Some (1::nat), None, Some 3]])
       = [Some 1, None, Some 3]"
  by code_simp

section \<open>Round trip of the contiguous ragged representation\<close>

text \<open>
  After the kept prefix of a row only missing values follow, so padding the
  prefix to the length of the row gives the row back, and the decoder finds
  the rows in the runs that the encoder wrote.
\<close>

lemma row_tail_missing:
  "drop (row_count r) r = replicate (length r - row_count r) None"
proof -
  let ?t = "takeWhile (\<lambda>x. x = None) (rev r)"
  have rc: "row_count r = length r - length ?t"
    by (simp add: row_count_eq trailing_missing_def)
  have le: "length ?t \<le> length r"
    by (metis length_rev length_takeWhile_le)
  have "rev r = ?t @ dropWhile (\<lambda>x. x = None) (rev r)" by simp
  then have "r = rev (dropWhile (\<lambda>x. x = None) (rev r)) @ rev ?t"
    by (metis rev_append rev_rev_ident)
  moreover have "length (rev (dropWhile (\<lambda>x. x = None) (rev r))) = row_count r"
    using rc by (metis length_rev length_append add_diff_cancel_left' takeWhile_dropWhile_id)
  ultimately have "drop (row_count r) r = rev ?t"
    by (metis append_eq_conv_conj)
  moreover have "rev ?t = replicate (length ?t) None"
  proof -
    have "\<forall>x\<in>set (rev ?t). x = None" using set_takeWhileD by fastforce
    then show ?thesis by (metis length_rev replicate_eqI)
  qed
  ultimately show ?thesis using rc le by simp
qed

lemma pad_row_prefix:
  assumes "length r = m"
  shows "pad_row m (take (row_count r) r) = r"
proof -
  have c: "row_count r \<le> m" using assms row_count_le [of r] by simp
  have "pad_row m (take (row_count r) r)
          = take (row_count r) r @ replicate (m - row_count r) None"
    using c assms by (simp add: pad_row_def min_absorb2)
  also have "\<dots> = take (row_count r) r @ drop (row_count r) r"
    using assms by (simp add: row_tail_missing)
  finally show ?thesis by simp
qed

lemma contiguous_rows_prefixes:
  assumes "\<forall>r\<in>set rs. length r = m"
    and "length pre = start"
  shows "contiguous_rows m start (map row_count rs)
           (pre @ concat (map (\<lambda>r. take (row_count r) r) rs) @ post) = rs"
  using assms
proof (induction rs arbitrary: start pre)
  case Nil
  then show ?case by simp
next
  case (Cons r rs)
  have lr: "length r = m" using Cons.prems by simp
  have c: "row_count r \<le> length r" by (rule row_count_le)
  let ?p = "take (row_count r) r"
  have first: "take (row_count r) (drop start (pre @ ?p @ concat (map (\<lambda>r. take (row_count r) r) rs) @ post)) = ?p"
    using Cons.prems(2) c by simp
  have rest: "contiguous_rows m (start + row_count r) (map row_count rs)
                ((pre @ ?p) @ concat (map (\<lambda>r. take (row_count r) r) rs) @ post) = rs"
    using Cons.prems c by (intro Cons.IH) simp_all
  show ?case
    using first rest pad_row_prefix [OF lr] by simp
qed


lemma concat_chunks:
  "concat (map (\<lambda>i. take m (drop (i * m) cells)) [0..<n]) = take (n * m) cells"
proof (induction n)
  case 0
  then show ?case by simp
next
  case (Suc n)
  have "take (n * m) cells @ take m (drop (n * m) cells) = take (n * m + m) cells"
    by (simp add: take_add)
  then show ?case using Suc by (simp add: add.commute)
qed

lemma flatten_2d:
  "flatten (NumpyArray [n, m] cells) = Inr (map (\<lambda>i. take m (drop (i * m) cells)) [0..<n])"
  by (simp add: flatten_def Let_def)

lemma chunk_length:
  assumes "length cells = n * m" "i < n"
  shows "length (take m (drop (i * m) cells)) = m"
proof -
  have "Suc i * m \<le> n * m" using assms(2) by (intro mult_le_mono1) simp
  then have "m \<le> n * m - i * m" by simp
  then show ?thesis using assms(1) by simp
qed

lemma missing_row:
  assumes "length r = m" "row_count r = 0"
  shows "r = replicate m None"
  using pad_row_prefix [OF assms(1)] assms by (simp add: pad_row_def)

lemma concat_missing_rows:
  "\<forall>r\<in>set B. length r = m \<and> row_count r = 0 \<Longrightarrow> concat B = replicate (length B * m) None"
proof (induction B)
  case Nil
  then show ?case by simp
next
  case (Cons r B)
  then have "r = replicate m None" by (simp add: missing_row)
  moreover have "concat B = replicate (length B * m) None" using Cons by simp
  ultimately show ?case by (simp add: replicate_add [symmetric])
qed

lemma empty_prefixes:
  "\<forall>r\<in>set B. row_count r = 0 \<Longrightarrow> concat (map (\<lambda>r. take (row_count r) r) B) = []"
  by (induction B) simp_all

lemma stored_prefixes_plain:
  assumes "\<forall>r\<in>set rows. None \<notin> set (take (row_count r) r)"
  shows "concat (map (stored_prefix um rows) [0..<length rows])
           = concat (map (\<lambda>r. take (row_count r) r) rows)"
proof -
  have "map (stored_prefix um rows) [0..<length rows]
          = map (\<lambda>k. (\<lambda>r. take (row_count r) r) (rows ! k)) [0..<length rows]"
    using assms by (intro map_cong refl) (simp add: stored_prefix_eq unmasked_id)
  also have "\<dots> = map (\<lambda>r. take (row_count r) r) (map ((!) rows) [0..<length rows])"
    by simp
  also have "\<dots> = map (\<lambda>r. take (row_count r) r) rows"
    by (simp only: map_nth)
  finally show ?thesis by simp
qed

lemma length_concat_prefixes:
  "length (concat (map (\<lambda>d. take (row_count d) d) ds)) = sum_list (map row_count ds)"
  by (induction ds) (simp_all add: row_count_le min_absorb2)

lemma count_variable_data_split:
  assumes "\<forall>r\<in>set A. row_count r \<noteq> 0" "\<forall>r\<in>set B. row_count r = 0"
  shows "count_variable_data (map row_count (A @ B)) = map row_count A"
proof -
  have "filter (\<lambda>n. n \<noteq> 0) (map row_count A) = map row_count A"
    using assms(1) by (simp add: filter_id_conv)
  moreover have "filter (\<lambda>n. n \<noteq> 0) (map row_count B) = []"
    using assms(2) by (simp add: filter_empty_conv)
  ultimately show ?thesis by (simp add: count_variable_data_def)
qed

text \<open>
  The round trip holds for every two-dimensional array whose missing values
  are trailing padding of its rows and in which no row without elements
  comes before a row with elements: the rows \<open>A\<close> have elements and the rows
  \<open>B\<close> after them have none.
\<close>

lemma compress_uncompress_roundtrip:
  assumes cells: "length cells = n * m"
    and rows: "flatten (NumpyArray [n, m] cells) = Inr (A @ B)"
    and A: "\<forall>r\<in>set A. row_count r \<noteq> 0" and B: "\<forall>r\<in>set B. row_count r = 0"
    and trailing: "\<forall>r\<in>set A. None \<notin> set (take (row_count r) r)"
    and cm: "cm ''contiguous'' (map row_count (A @ B)) (sum_list (map row_count (A @ B))) True
               (tc c) = (c', None)"
  shows "compress tc cm h \<lparr>data = Some (NumpyArray [n, m] cells), constructs = c\<rparr>
           ''contiguous'' False
         = (Inr (Some \<lparr>data = Some (RaggedContiguousArray
                                     (concat (map (\<lambda>r. take (row_count r) r) A)) [n, m]
                                     (map row_count A)),
                       constructs = c'\<rparr>),
            \<lparr>data = Some (NumpyArray [n, m] cells), constructs = c\<rparr>)"
    and "uncompress uc \<lparr>data = Some (RaggedContiguousArray
                                     (concat (map (\<lambda>r. take (row_count r) r) A)) [n, m]
                                     (map row_count A)),
                       constructs = c'\<rparr> False
         = (Inr (Some \<lparr>data = Some (NumpyArray [n, m] cells), constructs = uc c'\<rparr>),
            \<lparr>data = Some (RaggedContiguousArray
                            (concat (map (\<lambda>r. take (row_count r) r) A)) [n, m]
                            (map row_count A)),
             constructs = c'\<rparr>)"
proof -
  let ?pref = "\<lambda>r::'a option list. take (row_count r) r"
  let ?cdata = "concat (map ?pref A)"
  have AB: "A @ B = map (\<lambda>i. take m (drop (i * m) cells)) [0..<n]"
    using rows by (simp add: flatten_2d)
  have nAB: "length A + length B = n"
    using arg_cong [OF AB, of length] by simp
  have lens: "\<forall>r\<in>set (A @ B). length r = m"
    unfolding AB using chunk_length [OF cells] by auto
  have cat: "concat (A @ B) = cells"
    unfolding AB using cells by (simp add: concat_chunks)
  have plain: "\<forall>r\<in>set (A @ B). None \<notin> set (take (row_count r) r)"
    using trailing B by auto
  have dsg: "dsg_compression h (NumpyArray [n, m] cells)
               = Inr (A @ B, map row_count (A @ B), sum_list (map row_count (A @ B)), ?cdata)"
    using dsg_compression_rows [OF rows, of h] stored_prefixes_plain [OF plain, of "under_mask h"]
      empty_prefixes [OF B] by simp
  show "compress tc cm h \<lparr>data = Some (NumpyArray [n, m] cells), constructs = c\<rparr>
           ''contiguous'' False
         = (Inr (Some \<lparr>data = Some (RaggedContiguousArray ?cdata [n, m] (map row_count A)),
                       constructs = c'\<rparr>),
            \<lparr>data = Some (NumpyArray [n, m] cells), constructs = c\<rparr>)"
    using dsg cm count_variable_data_split [OF A B]
    by (simp add: compress_def Let_def returned_def replace_space_def)
  have sum: "sum_list (map row_count A) = length ?cdata"
    by (simp add: length_concat_prefixes)
  have fit: "\<not> list_ex (\<lambda>k. m < k) (map row_count A)"
  proof -
    have "row_count r \<le> m" if "r \<in> set A" for r
      using lens that row_count_le [of r] by auto
    then show ?thesis by (auto simp: list_ex_iff not_less)
  qed
  have dec: "contiguous_rows m 0 (map row_count A) ?cdata = A"
    using contiguous_rows_prefixes [of A m "[]" 0 "[]"] lens by simp
  have tail: "concat B = replicate (length B * m) None"
    using lens B by (intro concat_missing_rows) simp
  have "uncompress_contiguous ?cdata [n, m] (map row_count A)
          = Inr (concat A @ replicate ((n - length A) * m) None)"
    using sum fit dec nAB by (simp add: uncompress_contiguous_def)
  also have "(n - length A) * m = length B * m" using nAB by auto
  finally have "uncompress_contiguous ?cdata [n, m] (map row_count A) = Inr cells"
    using tail cat by simp
  then show "uncompress uc \<lparr>data = Some (RaggedContiguousArray ?cdata [n, m] (map row_count A)),
                       constructs = c'\<rparr> False
         = (Inr (Some \<lparr>data = Some (NumpyArray [n, m] cells), constructs = uc c'\<rparr>),
            \<lparr>data = Some (RaggedContiguousArray ?cdata [n, m] (map row_count A)),
             constructs = c'\<rparr>)"
    by (simp add: uncompress_def Let_def returned_def)
qed

text \<open>The array of the docstring of \<open>compress\<close>, with the counts 3, 7, 5 and 9,
  comes back from the round trip.\<close>

lemma compress_uncompress_scenario:
  "compress (\<lambda>c. c) (\<lambda>method counts N full c. (c, None))
     \<lparr>under_mask = \<lambda>i j. 0, uninitialised = \<lambda>p. 0\<rparr>
     \<lparr>data = Some (NumpyArray [4, 9]
        [Some (3.98::real), Some 0, Some 0, None, None, None, None, None, None,
         Some 0, Some 0, Some 0, Some 3.4, Some 0, Some 0, Some 4.61, None, None,
         Some 0.86, Some 0.8, Some 0.75, Some 0, Some 4.56, None, None, None, None,
         Some 0, Some 0.09, Some 0, Some 0.91, Some 2.96, Some 1.14, Some 3.86, Some 0, Some 0]),
      constructs = ()\<rparr> ''contiguous'' False
   = (Inr (Some \<lparr>data = Some (RaggedContiguousArray
        [Some 3.98, Some 0, Some 0,
         Some 0, Some 0, Some 0, Some 3.4, Some 0, Some 0, Some 4.61,
         Some 0.86, Some 0.8, Some 0.75, Some 0, Some 4.56,
         Some 0, Some 0.09, Some 0, Some 0.91, Some 2.96, Some 1.14, Some 3.86, Some 0, Some 0]
        [4, 9] [3, 7, 5, 9]), constructs = ()\<rparr>),
      \<lparr>data = Some (NumpyArray [4, 9]
        [Some 3.98, Some 0, Some 0, None, None, None, None, None, None,
         Some 0, Some 0, Some 0, Some 3.4, Some 0, Some 0, Some 4.61, None, None,
         Some 0.86, Some 0.8, Some 0.75, Some 0, Some 4.56, None, None, None, None,
         Some 0, Some 0.09, Some 0, Some 0.91, Some 2.96, Some 1.14, Some 3.86, Some 0, Some 0]),
      constructs = ()\<rparr>)
   \<and> uncompress (\<lambda>c. c)
       \<lparr>data = Some (RaggedContiguousArray
        [Some (3.98::real), Some 0, Some 0,
         Some 0, Some 0, Some 0, Some 3.4, Some 0, Some 0, Some 4.61,
         Some 0.86, Some 0.8, Some 0.75, Some 0, Some 4.56,
         Some 0, Some 0.09, Some 0, Some 0.91, Some 2.96, Some 1.14, Some 3.86, Some 0, Some 0]
        [4, 9] [3, 7, 5, 9]), constructs = ()\<rparr> False
     = (Inr (Some \<lparr>data = Some (NumpyArray [4, 9]
        [Some 3.98, Some 0, Some 0, None, None, None, None, None, None,
         Some 0, Some 0, Some 0, Some 3.4, Some 0, Some 0, Some 4.61, None, None,
         Some 0.86, Some 0.8, Some 0.75, Some 0, Some 4.56, None, None, None, None,
         Some 0, Some 0.09, Some 0, Some 0.91, Some 2.96, Some 1.14, Some 3.86, Some 0, Some 0]),
        constructs = ()\<rparr>),
        \<lparr>data = Some (RaggedContiguousArray
        [Some 3.98, Some 0, Some 0,
         Some 0, Some 0, Some 0, Some 3.4, Some 0, Some 0, Some 4.61,
         Some 0.86, Some 0.8, Some 0.75, Some 0, Some 4.56,
         Some 0, Some 0.09, Some 0, Some 0.91, Some 2.96, Some 1.14, Some 3.86, Some 0, Some 0]
        [4, 9] [3, 7, 5, 9]), constructs = ()\<rparr>)"
  by code_simp

text \<open>
  Claim C1.  The claim is the round trip \<open>uncompress (compress A) = A\<close> for every
  two-dimensional array whose missing values are trailing padding of its rows.
  The array with the rows \<open>[1, --]\<close>, \<open>[--, --]\<close> and \<open>[2, 3]\<close> is such an array:
  \<open>compress\<close> stores the count variable \<open>[1, 2]\<close> without the zero of the
  second row and keeps the shape \<open>(3, 2)\<close>, and \<open>uncompress\<close> gives the rows
  \<open>[1, --]\<close>, \<open>[2, 3]\<close> and \<open>[--, --]\<close>.
\<close>

theorem compress_uncompress_empty_row:
  "compress (\<lambda>c. c) (\<lambda>method counts N full c. (c, None))
     \<lparr>under_mask = \<lambda>i j. 0, uninitialised = \<lambda>p. 0\<rparr>
     \<lparr>data = Some (NumpyArray [3, 2] [Some (1::nat), None, None, None, Some 2, Some 3]),
      constructs = ()\<rparr> ''contiguous'' False
   = (Inr (Some \<lparr>data = Some (RaggedContiguousArray [Some 1, Some 2, Some 3] [3, 2] [1, 2]),
                 constructs = ()\<rparr>),
      \<lparr>data = Some (NumpyArray [3, 2] [Some 1, None, None, None, Some 2, Some 3]),
       constructs = ()\<rparr>)
   \<and> uncompress (\<lambda>c. c)
       \<lparr>data = Some (RaggedContiguousArray [Some (1::nat), Some 2, Some 3] [3, 2] [1, 2]),
        constructs = ()\<rparr> False
     = (Inr (Some \<lparr>data = Some (NumpyArray [3, 2] [Some 1, None, Some 2, Some 3, None, None]),
                   constructs = ()\<rparr>),
        \<lparr>data = Some (RaggedContiguousArray [Some 1, Some 2, Some 3] [3, 2] [1, 2]),
         constructs = ()\<rparr>)"
  by code_simp

section \<open>The compressed slices divide the sample dimension\<close>

lemma length_cumsum_from: "length (cumsum_from a xs) = length xs"
  by (induction xs arbitrary: a) simp_all

lemma cumsum_from_nth:
  "j < length xs \<Longrightarrow> cumsum_from a xs ! j = a + sum_list (take (Suc j) xs)"
proof (induction xs arbitrary: a j)
  case Nil
  then show ?case by simp
next
  case (Cons x xs)
  then show ?case by (cases j) simp_all
qed

lemma cumsum_nth: "j < length xs \<Longrightarrow> cumsum xs ! j = sum_list (take (Suc j) xs)"
  by (simp add: cumsum_def cumsum_from_nth)

lemma length_cumsum: "length (cumsum xs) = length xs"
  by (simp add: cumsum_def length_cumsum_from)

lemma profile_slices_closed:
  "\<forall>j\<in>set js. j < length counts \<Longrightarrow>
   profile_slices (cumsum counts) js ind = Inr (ind @ map (profile_slice counts) js)"
proof (induction js arbitrary: ind)
  case Nil
  then show ?case by simp
next
  case (Cons j js)
  have j: "j < length counts" using Cons.prems by simp
  have start: "(if j = 0 then Inr 0 else getitem_list (cumsum counts) (j - 1))
                 = Inr (sum_list (take j counts))"
  proof (cases j)
    case 0
    then show ?thesis by simp
  next
    case (Suc j')
    then have "j' < length counts" using j by simp
    then show ?thesis using Suc by (simp add: getitem_list_def length_cumsum cumsum_nth)
  qed
  have stop: "getitem_list (cumsum counts) j = Inr (sum_list (take (Suc j) counts))"
    using j by (simp add: getitem_list_def length_cumsum cumsum_nth)
  have IH: "profile_slices (cumsum counts) js (ind @ [profile_slice counts j])
              = Inr ((ind @ [profile_slice counts j]) @ map (profile_slice counts) js)"
    using Cons.prems by (intro Cons.IH) simp
  show ?case
    using IH by (simp add: start stop profile_slice_def del: take_Suc)
qed

lemma where_eq_less: "j \<in> set (where_eq index i) \<Longrightarrow> j < length index"
  by (simp add: where_eq_def)

lemma feature_loop_closed:
  "length index \<le> length counts \<Longrightarrow>
   feature_loop m index (cumsum counts) us ind
     = Inr (ind @ concat (map (feature_slices m counts index) us))"
proof (induction us arbitrary: ind)
  case Nil
  then show ?case by simp
next
  case (Cons i us)
  have "\<forall>j\<in>set (where_eq index i). j < length counts"
    using Cons.prems where_eq_less [of _ index i] by fastforce
  then have ps: "profile_slices (cumsum counts) (where_eq index i) ind
                   = Inr (ind @ map (profile_slice counts) (where_eq index i))"
    by (rule profile_slices_closed)
  show ?case
    using Cons.IH [OF Cons.prems] ps by (simp add: Let_def feature_slices_def)
qed

lemma c_ind_closed:
  "length index \<le> length counts \<Longrightarrow>
   c_ind m counts index = Inr (concat (map (feature_slices m counts index) (unique index)))"
  by (simp add: c_ind_def feature_loop_closed)


















section \<open>Descriptors of the features\<close>

text \<open>
  When the index values cover every feature, the compressed slices are the
  slices of the features 0, 1, ... in turn, each feature with the slices of
  its profiles and its ghost slots; if also no feature has more profiles than
  the profile dimension holds, the four sequences of descriptors have the
  same length.
\<close>

lemma length_itertools_product:
  "length (itertools_product xss) = prod_list (map length xss)"
  by (induction xss) (simp_all add: length_concat o_def sum_list_triv)

lemma prod_list_two:
  assumes "2 \<le> n"
  shows "prod_list ((replicate n (1::nat))[0 := a, 1 := b]) = a * b"
proof -
  obtain k where n: "n = Suc (Suc k)" using assms by (metis add_2_eq_Suc le_Suc_ex)
  show ?thesis unfolding n by simp
qed

lemma prod_list_one:
  assumes "0 < n"
  shows "prod_list ((replicate n (1::nat))[0 := a]) = a"
proof -
  obtain k where n: "n = Suc k" using assms by (cases n) auto
  show ?thesis unfolding n by simp
qed

lemma unique_covering:
  assumes "set index = {0..<n}"
  shows "unique index = [0..<n]"
proof -
  have "unique index = sorted_list_of_set (set index)"
    by (simp add: unique_def sorted_list_of_set_sort_remdups)
  then show ?thesis using assms by simp
qed

lemma length_feature_slices:
  "length (where_eq index i) \<le> m \<Longrightarrow> length (feature_slices m counts index i) = m"
  by (simp add: feature_slices_def)

lemma c_ind_covering:
  assumes "length index \<le> length counts" "set index = {0..<n_features}"
  shows "c_ind m counts index
           = Inr (concat (map (feature_slices m counts index) [0..<n_features]))"
  using assms by (simp add: c_ind_closed unique_covering)

lemma length_concat_const:
  "\<forall>x\<in>set xs. length (f x) = m \<Longrightarrow> length (concat (map f xs)) = length xs * m"
  by (induction xs) simp_all

lemma subarrays_aligned:
  assumes nd: "2 \<le> length sh" and src: "0 < source_ndim"
    and len: "length index \<le> length counts"
    and cover: "set index = {0..<sh ! 0}"
    and fit: "\<forall>i<sh ! 0. length (where_eq index i) \<le> sh ! 1"
  shows "\<exists>u_indices u_shapes c_indices locations.
           subarrays sh source_ndim counts index
             = Inr (u_indices, u_shapes, c_indices, locations)
         \<and> length u_indices = sh ! 0 * sh ! 1
         \<and> length u_shapes = sh ! 0 * sh ! 1
         \<and> length c_indices = sh ! 0 * sh ! 1
         \<and> length locations = sh ! 0 * sh ! 1"
proof -
  let ?nf = "sh ! 0" and ?np = "sh ! 1"
  let ?ind = "concat (map (feature_slices ?np counts index) [0..<?nf])"
  have c: "c_ind ?np counts index = Inr ?ind"
    by (rule c_ind_covering [OF len cover])
  have li: "length ?ind = ?nf * ?np"
    using fit by (subst length_concat_const [where m = "?np"]) (simp_all add: length_feature_slices)
  have ml: "map length (map (\<lambda>n. [n]) sh) = replicate (length sh) 1"
    by (simp add: o_def map_replicate_const)
  have u: "length (itertools_product ((replicate (length sh) [slice_None])
             [0 := map (\<lambda>i. slice2 i (i + 1)) [0..<?nf],
              1 := map (\<lambda>j. slice2 j (j + 1)) [0..<?np]])) = ?nf * ?np"
    using prod_list_two [OF nd, of ?nf ?np]
    by (simp add: length_itertools_product map_update)
  have l: "length (itertools_product ((replicate (length sh) [0::nat])
             [0 := [0..<?nf], 1 := [0..<?np]])) = ?nf * ?np"
    using prod_list_two [OF nd, of ?nf ?np]
    by (simp add: length_itertools_product map_update)
  have s: "length (itertools_product ((map (\<lambda>n. [n]) sh)
             [0 := replicate ?nf 1, 1 := replicate ?np 1])) = ?nf * ?np"
    using prod_list_two [OF nd, of ?nf ?np] ml
    by (simp add: length_itertools_product map_update)
  have ci: "length (itertools_product ((replicate source_ndim [slice_None])[0 := ?ind]))
              = ?nf * ?np"
    using prod_list_one [OF src, of "length ?ind"] li
    by (simp add: length_itertools_product map_update)
  have "subarrays sh source_ndim counts index
          = Inr (itertools_product ((replicate (length sh) [slice_None])
                   [0 := map (\<lambda>i. slice2 i (i + 1)) [0..<?nf],
                    1 := map (\<lambda>j. slice2 j (j + 1)) [0..<?np]]),
                 itertools_product ((map (\<lambda>n. [n]) sh)
                   [0 := replicate ?nf 1, 1 := replicate ?np 1]),
                 itertools_product ((replicate source_ndim [slice_None])[0 := ?ind]),
                 itertools_product ((replicate (length sh) [0])
                   [0 := [0..<?nf], 1 := [0..<?np]]))"
    using nd src c by (simp add: subarrays_def Let_def)
  then show ?thesis using u s ci l by blast
qed

text \<open>
  The scenario of the specification: the profiles with the counts 4, 2, 3 and
  3 belong to the features 0, 0, 1 and 0.  The second and the third profile
  slot of feature 1 get zero-length slices and stay masked.
\<close>

lemma subarrays_scenario:
  "subarrays [2, 3, 4] 1 [4, 2, 3, 3] [0, 0, 1, 0]
   = Inr ([[slice2 0 1, slice2 0 1, slice_None], [slice2 0 1, slice2 1 2, slice_None],
           [slice2 0 1, slice2 2 3, slice_None], [slice2 1 2, slice2 0 1, slice_None],
           [slice2 1 2, slice2 1 2, slice_None], [slice2 1 2, slice2 2 3, slice_None]],
          [[1, 1, 4], [1, 1, 4], [1, 1, 4], [1, 1, 4], [1, 1, 4], [1, 1, 4]],
          [[slice2 0 4], [slice2 4 6], [slice2 9 12], [slice2 6 9], [slice2 0 0], [slice2 0 0]],
          [[0, 0, 0], [0, 1, 0], [0, 2, 0], [1, 0, 0], [1, 1, 0], [1, 2, 0]])"
  by code_simp

lemma indexed_contiguous_scenario:
  "uncompress_indexed_contiguous
     [Some (0::nat), Some 1, Some 2, Some 3, Some 4, Some 5, Some 6, Some 7, Some 8,
      Some 9, Some 10, Some 11]
     [2, 3, 4] [4, 2, 3, 3] [0, 0, 1, 0]
   = Inr [Some 0, Some 1, Some 2, Some 3,   Some 4, Some 5, None, None,
          Some 9, Some 10, Some 11, None,
          Some 6, Some 7, Some 8, None,   None, None, None, None,   None, None, None, None]"
  by code_simp

section \<open>Descriptors for a feature without profiles\<close>

text \<open>
  \<open>compress('indexed_contiguous')\<close> builds an index that does not name a
  feature whose profiles are all missing: for the array of shape \<open>(2, 1, 2)\<close>
  whose feature 0 is missing, the index is \<open>[1]\<close>, and decoding puts the
  profile of feature 1 into feature 0.
\<close>

lemma compress_uncompress_feature_without_profiles:
  "compress (\<lambda>c. c) (\<lambda>method counts N full c. (c, None))
     \<lparr>under_mask = \<lambda>i j. 0, uninitialised = \<lambda>p. 0\<rparr>
     \<lparr>data = Some (NumpyArray [2, 1, 2] [None, None, Some (5::nat), Some 6]),
      constructs = ()\<rparr> ''indexed_contiguous'' False
   = (Inr (Some \<lparr>data = Some (RaggedIndexedContiguousArray [Some 5, Some 6] [2, 1, 2] [2] [1]),
                 constructs = ()\<rparr>),
      \<lparr>data = Some (NumpyArray [2, 1, 2] [None, None, Some 5, Some 6]), constructs = ()\<rparr>)
   \<and> uncompress (\<lambda>c. c)
       \<lparr>data = Some (RaggedIndexedContiguousArray [Some (5::nat), Some 6] [2, 1, 2] [2] [1]),
        constructs = ()\<rparr> False
     = (Inr (Some \<lparr>data = Some (NumpyArray [2, 1, 2] [Some 5, Some 6, None, None]),
                   constructs = ()\<rparr>),
        \<lparr>data = Some (RaggedIndexedContiguousArray [Some 5, Some 6] [2, 1, 2] [2] [1]),
         constructs = ()\<rparr>)"
  by code_simp

text \<open>
  Claim C2.  The claim asks, for each feature, for one slice per profile
  followed by a zero-length slice for every ghost profile slot.  For the shape
  \<open>(2, 1, 2)\<close> with the count \<open>[2]\<close> and the index \<open>[1]\<close>, feature 0 has no
  profile and one ghost slot: the loop over \<open>np.unique(index)\<close> does not visit
  it, and the compressed slices are the single slice of feature 1.
\<close>

theorem c_ind_feature_without_profiles:
  "c_ind 1 [2] [1] = Inr [slice2 0 2]"
  by code_simp

text \<open>
  Claim C5.  The claim is that the four sequences of descriptors have the same
  number of elements.  For the same array the uncompressed indices, the shapes
  and the locations have two elements and the compressed indices have one,
  which is paired with the subarray of feature 0.
\<close>

theorem subarrays_feature_without_profiles:
  "subarrays [2, 1, 2] 1 [2] [1]
     = Inr ([[slice2 0 1, slice2 0 1, slice_None], [slice2 1 2, slice2 0 1, slice_None]],
            [[1, 1, 2], [1, 1, 2]],
            [[slice2 0 2]],
            [[0, 0, 0], [1, 0, 0]])"
  by code_simp

section \<open>Full decode of the linear subsampled array\<close>

text \<open>
  Claim C3.  The claim is that the full decode of the tie points
  \<open>[15, 135, 225, 255, 345]\<close> at the positions \<open>[0, 4, 7, 8, 11]\<close> produces the
  five interpolated values from 15 to 135 between the positions 0 and 4.
  \<open>__getitem__\<close> does not reach the interpolation: in the first subarea the
  argument \<open>subarea_size[d]\<close> of the call raises \<open>NameError\<close>.
\<close>

theorem getitem_linear_scenario:
  "SampledLinearArray_getitem (\<lambda>indices. None) (\<lambda>uarray indices. uarray)
     [15, 135, 225, 255, 345] [12]
     [\<lparr>sa_tp_indices = [0, 1], sa_u_indices = slice2 0 5,
        sa_subarea_size = 5, sa_new_area = True\<rparr>,
      \<lparr>sa_tp_indices = [1, 2], sa_u_indices = slice2 5 8,
        sa_subarea_size = 4, sa_new_area = False\<rparr>,
      \<lparr>sa_tp_indices = [3, 4], sa_u_indices = slice2 8 12,
        sa_subarea_size = 4, sa_new_area = True\<rparr>]
     [Ellipsis]
   = Inl NameError"
  by code_simp

section \<open>The shared tie point of adjacent subareas\<close>

text \<open>The body of the decoding loop ends in an exception for every subarea,
  so the loop gives a buffer back only when there is no subarea, and then it
  is the buffer it started with: no value is ever written.\<close>

lemma interpolate_subarea_raises: "\<exists>e. interpolate_subarea tie_points sa uarray = Inl e"
  by (auto simp: interpolate_subarea_def Let_def split: sum.splits)

lemma interpolate_subareas_writes_nothing:
  assumes "interpolate_subareas tie_points subareas uarray = Inr uarray'"
  shows "subareas = [] \<and> uarray' = uarray"
proof (cases subareas)
  case Nil
  then show ?thesis using assms by simp
next
  case (Cons sa rest)
  obtain e where "interpolate_subarea tie_points sa uarray = Inl e"
    using interpolate_subarea_raises by blast
  then show ?thesis using assms Cons by simp
qed

text \<open>
  Claim C4.  The claim is that the decoder writes the values of a subarea that
  is not the first of a continuous area without the value at its first
  position, so that the shared tie point is written exactly once.  The
  subarea between the positions 4 and 7 of the scenario shares the tie point
  135 with the subarea before it: the loop body raises \<open>NameError\<close> before
  the call that would drop the first value, and the loop over the two
  subareas writes the shared position not once but never.
\<close>

theorem interpolate_shared_tie_point:
  "interpolate_subarea [15, 135, 225, 255, 345]
     \<lparr>sa_tp_indices = [1, 2], sa_u_indices = slice2 5 8,
      sa_subarea_size = 4, sa_new_area = False\<rparr>
     (replicate 12 None)
   = Inl NameError
   \<and> interpolate_subareas [15, 135, 225, 255, 345]
       [\<lparr>sa_tp_indices = [0, 1], sa_u_indices = slice2 0 5,
          sa_subarea_size = 5, sa_new_area = True\<rparr>,
        \<lparr>sa_tp_indices = [1, 2], sa_u_indices = slice2 5 8,
          sa_subarea_size = 4, sa_new_area = False\<rparr>]
       (replicate 12 None)
     = Inl NameError"
  by code_simp

section \<open>Optional parameters of the geographic coefficients\<close>

text \<open>
  Claim C7.  The cartesian coefficient formula \<open>_fcea2cv\<close> gives the same
  vector when the parameter \<open>ce\<close> is absent as when it is zero, and likewise for
  \<open>ca\<close>; the function is total, so an absent parameter is no error.
\<close>

theorem fcea2cv_missing_is_zero:
  "fcea2cv va vb None ca = fcea2cv va vb (Some 0) ca
   \<and> fcea2cv va vb ce None = fcea2cv va vb ce (Some 0)"
  by (cases va; cases vb; cases ce; cases ca)
     (simp_all add: fcea2cv_def fplus_def fmultiply_def fminus_def fcross_def fdot_def Let_def)

section \<open>Compression methods that are not available\<close>

lemma not_already_compressed:
  assumes "method \<noteq> ''contiguous''" "method \<noteq> ''indexed''" "method \<noteq> ''indexed_contiguous''"
  shows "\<not> (replace_space (get_compression_type d) \<noteq> []
            \<and> replace_space (get_compression_type d) = ''ragged_'' @ method)"
  using assms by (cases d) (auto simp: replace_space_def)

text \<open>A field construct without data is returned as it is, whatever the
  method.\<close>

lemma compress_no_data:
  assumes "data self = None"
  shows "compress tc cm h self method inplace
           = (Inr (if inplace then None else Some self), self)"
  using assms by (simp add: compress_def returned_def Let_def)

text \<open>
  Claim C8, as stated: every request for a method that is not implemented raises
  an error.  A field construct without data is returned before the method is
  looked at, so \<open>compress('gathered')\<close> returns it and raises nothing.
\<close>

theorem compress_unsupported_method_no_data:
  "compress (\<lambda>c. c) (\<lambda>method counts N full c. (c, None))
     \<lparr>under_mask = \<lambda>i j. 0, uninitialised = \<lambda>p. 0\<rparr>
     \<lparr>data = (None :: nat array option), constructs = ()\<rparr> ''gathered'' False
   = (Inr (Some \<lparr>data = None, constructs = ()\<rparr>), \<lparr>data = None, constructs = ()\<rparr>)"
  by (simp add: compress_def returned_def Let_def)

text \<open>
  Claim C8, amended.  For a field construct that has data, a request for
  \<open>'gathered'\<close> or for any name other than \<open>'contiguous'\<close>, \<open>'indexed'\<close> and
  \<open>'indexed_contiguous'\<close> raises an error and returns nothing.  The data of
  the field are left as they were, with no compressed array attached; the
  field is unchanged when the operation is not in place, and when it is in
  place its metadata constructs have been transposed into the axis order of
  the data.
\<close>

theorem compress_unsupported_method:
  assumes "data self = Some d"
    and "method \<noteq> ''contiguous''" and "method \<noteq> ''indexed''"
    and "method \<noteq> ''indexed_contiguous''"
  shows "\<exists>e. compress tc cm h self method inplace
               = (Inl e, if inplace then self\<lparr>constructs := tc (constructs self)\<rparr> else self)"
proof -
  note nc = not_already_compressed [OF assms(2-4), of d]
  show ?thesis
  proof (cases "dsg_compression h d")
    case (Inl e)
    then show ?thesis
      using assms nc by (auto simp: compress_def raised_def Let_def)
  next
    case (Inr r)
    then show ?thesis
      using assms nc by (cases r) (auto simp: compress_def raised_def Let_def)
  qed
qed

theorem compress_unsupported_method_witness:
  "(\<exists>e. compress (\<lambda>c. c + 1) (\<lambda>method counts N full c. (c, None))
          \<lparr>under_mask = \<lambda>i j. 0, uninitialised = \<lambda>p. 0\<rparr>
          \<lparr>data = Some (NumpyArray [1, 2] [Some (1::nat), None]), constructs = (0::nat)\<rparr>
          ''gathered'' False
        = (Inl e, \<lparr>data = Some (NumpyArray [1, 2] [Some 1, None]), constructs = 0\<rparr>))
   \<and> (\<exists>e. compress (\<lambda>c. c + 1) (\<lambda>method counts N full c. (c, None))
          \<lparr>under_mask = \<lambda>i j. 0, uninitialised = \<lambda>p. 0\<rparr>
          \<lparr>data = Some (NumpyArray [1, 2] [Some (1::nat), None]), constructs = (0::nat)\<rparr>
          ''bzip2'' True
        = (Inl e, \<lparr>data = Some (NumpyArray [1, 2] [Some 1, None]), constructs = 1\<rparr>))"
  using compress_unsupported_method
          [of "\<lparr>data = Some (NumpyArray [1, 2] [Some (1::nat), None]), constructs = (0::nat)\<rparr>"
              "NumpyArray [1, 2] [Some (1::nat), None]" "''gathered''"
              "\<lambda>c. c + 1" "\<lambda>method counts N full c. (c, None)"
              "\<lparr>under_mask = \<lambda>i j. 0, uninitialised = \<lambda>p. 0\<rparr>" False]
        compress_unsupported_method
          [of "\<lparr>data = Some (NumpyArray [1, 2] [Some (1::nat), None]), constructs = (0::nat)\<rparr>"
              "NumpyArray [1, 2] [Some (1::nat), None]" "''bzip2''"
              "\<lambda>c. c + 1" "\<lambda>method counts N full c. (c, None)"
              "\<lparr>under_mask = \<lambda>i j. 0, uninitialised = \<lambda>p. 0\<rparr>" True]
  by simp

section \<open>Subspaces of a field construct\<close>

lemma sequence_length: "sequence rs = Inr xs \<Longrightarrow> length xs = length rs"
  by (induction rs arbitrary: xs) (auto split: sum.splits)

lemma sequence_nth:
  "sequence rs = Inr xs \<Longrightarrow> k < length rs \<Longrightarrow> rs ! k = Inr (xs ! k)"
proof (induction rs arbitrary: xs k)
  case Nil
  then show ?case by simp
next
  case (Cons r rs)
  then show ?case by (cases k) (auto split: sum.splits)
qed

lemma expand_indices_length:
  assumes "expand_indices sh indices = Inr full"
  shows "length sh \<le> length full"
  using assms by (auto simp: expand_indices_def Let_def split: if_splits)

lemma parse_indices_nth:
  assumes "parse_indices sh indices = Inr indices'"
  shows "\<exists>full. expand_indices sh indices = Inr full \<and> length indices' = length sh
           \<and> (\<forall>k<length sh. parse_index (full ! k) (sh ! k) = Inr (indices' ! k))"
proof -
  from assms obtain full where full: "expand_indices sh indices = Inr full"
    and seq: "sequence (map (\<lambda>(ix, n). parse_index ix n) (zip full sh)) = Inr indices'"
    by (auto simp: parse_indices_def split: sum.splits)
  have le: "length sh \<le> length full" by (rule expand_indices_length [OF full])
  then have lz: "length (map (\<lambda>(ix, n). parse_index ix n) (zip full sh)) = length sh"
    by simp
  have len: "length indices' = length sh"
    using sequence_length [OF seq] lz by simp
  have "parse_index (full ! k) (sh ! k) = Inr (indices' ! k)" if "k < length sh" for k
  proof -
    have "map (\<lambda>(ix, n). parse_index ix n) (zip full sh) ! k = parse_index (full ! k) (sh ! k)"
      using that le by simp
    then show ?thesis using sequence_nth [OF seq] that lz by simp
  qed
  then show ?thesis using full len by blast
qed

lemma concat_no_ellipsis:
  "Ellipsis \<notin> set xs \<Longrightarrow>
   concat (map (\<lambda>i. if i = Ellipsis then r else [i]) xs) = xs"
  by (induction xs) auto

text \<open>Without an \<open>Ellipsis\<close>, the index at place \<open>k\<close> of the expression is the
  index of axis \<open>k\<close>.\<close>

lemma expand_indices_plain:
  assumes "expand_indices sh indices = Inr full"
    and "Ellipsis \<notin> set indices" and "k < length indices"
  shows "full ! k = indices ! k"
proof -
  have ne: "filter (\<lambda>i. i = Ellipsis) indices = []"
    using assms(2) by (auto simp: filter_empty_conv)
  note ex = concat_no_ellipsis [OF assms(2)]
  from assms(1) have "full = indices @ replicate (length sh - length indices) (SliceIx slice_None)"
    using ne ex by (auto simp: expand_indices_def Let_def split: if_splits)
  then show ?thesis using assms(3) by (simp add: nth_append)
qed

lemma parse_index_IntIx_positions:
  assumes "parse_index (IntIx i) n = Inr ix'"
  shows "axis_positions ix' n = Inr [nat (if i < 0 then i + int n else i)]"
proof -
  let ?j = "if i < 0 then i + int n else i"
  from assms have rng: "0 \<le> ?j" "?j < int n"
    and ix': "ix' = SliceIx (Slice (Some ?j) (Some (?j + 1)) (Some 1))"
    by (auto simp: parse_index_def Let_def split: if_splits)
  have "slice_indices (Slice (Some ?j) (Some (?j + 1)) (Some 1)) n = Inr (?j, ?j + 1, 1)"
    using rng by (auto simp: slice_indices_def Let_def min_def)
  then have "slice_positions (Slice (Some ?j) (Some (?j + 1)) (Some 1)) n = Inr [nat ?j]"
    by (simp add: slice_positions_def py_range_def)
  then show ?thesis
    unfolding ix' by (simp add: axis_positions_def)
qed

lemma Data_getitem_shape:
  assumes "Data_getitem d indices = Inr new_data"
  shows "length (shape new_data) = min (length indices) (length (shape d))"
proof -
  from assms obtain cells sel where
    seq: "sequence (map (\<lambda>(ix, n). axis_positions ix n) (zip indices (shape d))) = Inr sel"
    and nd: "new_data = NumpyArray (map length sel)
               (map (\<lambda>location. cells ! ravel (shape d) location) (itertools_product sel))"
    by (auto simp: Data_getitem_def split: sum.splits)
  from sequence_length [OF seq] nd show ?thesis by simp
qed

lemma Data_getitem_nth:
  assumes "Data_getitem d indices = Inr new_data"
    and "k < length indices" and "k < length (shape d)"
    and "axis_positions (indices ! k) (shape d ! k) = Inr ps"
  shows "shape new_data ! k = length ps"
proof -
  from assms(1) obtain cells sel where
    seq: "sequence (map (\<lambda>(ix, n). axis_positions ix n) (zip indices (shape d))) = Inr sel"
    and nd: "new_data = NumpyArray (map length sel)
               (map (\<lambda>location. cells ! ravel (shape d) location) (itertools_product sel))"
    by (auto simp: Data_getitem_def split: sum.splits)
  have kz: "k < length (map (\<lambda>(ix, n). axis_positions ix n) (zip indices (shape d)))"
    using assms(2,3) by simp
  have "map (\<lambda>(ix, n). axis_positions ix n) (zip indices (shape d)) ! k = Inr ps"
    using assms(2,3,4) by simp
  with sequence_nth [OF seq kz] have "sel ! k = ps" by simp
  moreover have "k < length sel" using sequence_length [OF seq] kz by simp
  ultimately show ?thesis using nd by simp
qed

text \<open>
  Claim C10.  A subspace of a field construct has as many dimensions as the
  field: whenever \<open>Field.__getitem__\<close> returns, the shape of the new data has
  the length of the shape of the data, and an axis whose index is the integer
  \<open>i\<close> keeps the single element \<open>i\<close> (counted from the end if negative) and
  has size one in the result.
\<close>

theorem Field_getitem_keeps_rank:
  assumes "Field_getitem sc self indices = Inr g"
  shows "\<exists>d d' full indices'.
           data self = Some d \<and> data g = Some d'
         \<and> expand_indices (shape d) indices = Inr full
         \<and> parse_indices (shape d) indices = Inr indices'
         \<and> length (shape d') = length (shape d)
         \<and> (\<forall>k i. k < length (shape d) \<and> full ! k = IntIx i
               \<longrightarrow> axis_positions (indices' ! k) (shape d ! k)
                     = Inr [nat (if i < 0 then i + int (shape d ! k) else i)]
                   \<and> shape d' ! k = 1)
         \<and> (\<forall>k. Ellipsis \<notin> set indices \<and> k < length indices \<longrightarrow> full ! k = indices ! k)"
proof -
  from assms obtain d indices' d' c where
    d: "data self = Some d"
    and p: "parse_indices (shape d) indices = Inr indices'"
    and g: "Data_getitem d indices' = Inr d'"
    and gd: "g = \<lparr>data = Some d', constructs = c\<rparr>"
    by (auto simp: Field_getitem_def split: option.splits sum.splits)
  from parse_indices_nth [OF p] obtain full where
    full: "expand_indices (shape d) indices = Inr full"
    and len': "length indices' = length (shape d)"
    and nth: "\<forall>k<length (shape d). parse_index (full ! k) (shape d ! k) = Inr (indices' ! k)"
    by blast
  have rank: "length (shape d') = length (shape d)"
    using Data_getitem_shape [OF g] len' by simp
  have one: "axis_positions (indices' ! k) (shape d ! k)
               = Inr [nat (if i < 0 then i + int (shape d ! k) else i)]
             \<and> shape d' ! k = 1"
    if "k < length (shape d)" "full ! k = IntIx i" for k i
  proof -
    from nth that have pk: "parse_index (IntIx i) (shape d ! k) = Inr (indices' ! k)" by auto
    note pos = parse_index_IntIx_positions [OF pk]
    from Data_getitem_nth [OF g _ that(1) pos] that(1) len'
    show ?thesis using pos by simp
  qed
  have plain: "full ! k = indices ! k" if "Ellipsis \<notin> set indices" "k < length indices" for k
    by (rule expand_indices_plain [OF full that])
  show ?thesis using d gd full p rank one plain by auto
qed

theorem Field_getitem_keeps_rank_witness:
  "Field_getitem (\<lambda>sh indices c. Inr c)
     \<lparr>data = Some (NumpyArray [2, 3] [Some (0::nat), Some 1, Some 2, Some 3, Some 4, Some 5]),
      constructs = ()\<rparr> [Ellipsis, IntIx (- 1)]
   = Inr \<lparr>data = Some (NumpyArray [2, 1] [Some 2, Some 5]), constructs = ()\<rparr>
   \<and> expand_indices [2, 3] [Ellipsis, IntIx (- 1)] = Inr [SliceIx slice_None, IntIx (- 1)]
   \<and> length (shape (NumpyArray [2, 1] [Some (2::nat), Some 5]))
       = length (shape (NumpyArray [2, 3] [Some (0::nat), Some 1, Some 2, Some 3, Some 4, Some 5]))
   \<and> shape (NumpyArray [2, 1] [Some (2::nat), Some 5]) ! 1 = 1"
proof -
  have ev: "Field_getitem (\<lambda>sh indices c. Inr c)
     \<lparr>data = Some (NumpyArray [2, 3] [Some (0::nat), Some 1, Some 2, Some 3, Some 4, Some 5]),
      constructs = ()\<rparr> [Ellipsis, IntIx (- 1)]
   = Inr \<lparr>data = Some (NumpyArray [2, 1] [Some 2, Some 5]), constructs = ()\<rparr>"
    by code_simp
  have ex: "expand_indices [2, 3] [Ellipsis, IntIx (- 1)] = Inr [SliceIx slice_None, IntIx (- 1)]"
    by code_simp
  from Field_getitem_keeps_rank [OF ev] ex
  have "length (shape (NumpyArray [2, 1] [Some (2::nat), Some 5]))
          = length (shape (NumpyArray [2, 3] [Some (0::nat), Some 1, Some 2, Some 3, Some 4, Some 5]))
        \<and> shape (NumpyArray [2, 1] [Some (2::nat), Some 5]) ! 1 = 1"
    by auto
  with ev ex show ?thesis by blast
qed

end
